theory Spec2Isabelle
  imports Main
begin

unbundle bit_operations_syntax

section \<open>Tile rearrangement (qualifier.py)\<close>

text \<open>
  The module has two functions. \<open>valid_input\<close> is a pure check on the image size, the
  tile size and the ordering. \<open>rearrange_tiles\<close> opens an image with the imaging library
  (PIL), validates, cuts the image into a grid of boxes, pastes the crops named by the
  ordering into a fresh canvas and saves the canvas.

  Python integers are unbounded: they are \<open>int\<close> here. Python's \<open>%\<close> and \<open>//\<close> round
  towards minus infinity, as \<open>mod\<close> and \<open>div\<close> on \<open>int\<close> do; unlike HOL they raise
  \<open>ZeroDivisionError\<close> on a zero divisor, which the model writes out. Exceptions are
  values of the type \<open>error\<close>, results are sums with the error on the left.
  The names are those of the source; \<open>ordering\<close> and \<open>image\<close> are constants of HOL, so
  the variables of these names carry a prime.
\<close>

subsection \<open>Errors\<close>

datatype error =
    ZeroDivisionError
  | IndexError
  | ValueError string
  | FileNotFoundError
  | UnidentifiedImageError
  | OSError

subsection \<open>The validator\<close>

text \<open>
  \<^verbatim>\<open>
  image_width, image_height = image_size
  width, height = tile_size
  if (image_width % width) | (image_height % height):
      return False
  if len(set(ordering)) ^ (image_width // width) * (image_height // height):
      return False
  return True
  \<close>
  \<open>|\<close> and \<open>^\<close> are the bitwise operators on integers, and a condition holds when its
  integer is not zero. \<open>*\<close> binds tighter than \<open>^\<close>. The number of elements of
  \<open>set(ordering)\<close> is the length of the list without its duplicates.
\<close>

definition valid_input :: "int \<times> int \<Rightarrow> int \<times> int \<Rightarrow> int list \<Rightarrow> error + bool" where
  "valid_input image_size tile_size ordering' =
     (case image_size of (image_width, image_height) \<Rightarrow>
      case tile_size of (width, height) \<Rightarrow>
        if width = 0 then Inl ZeroDivisionError
        else if height = 0 then Inl ZeroDivisionError
        else if (image_width mod width) OR (image_height mod height) \<noteq> 0 then Inr False
        else if int (length (remdups ordering'))
                  XOR (image_width div width) * (image_height div height) \<noteq> 0
             then Inr False
        else Inr True)"

subsection \<open>Images and the imaging library\<close>

text \<open>
  An image of the library is a raster with a size, a colour mode and the format of the
  file it was decoded from (\<open>None\<close> for an image made in memory). The raster is a
  function from coordinates to pixel values; only the coordinates inside the size
  matter. A box is \<open>(left, upper, right, lower)\<close>.
\<close>

record 'p image =
  im_size :: "int \<times> int"
  mode :: string
  format :: "string option"
  pixel :: "int \<times> int \<Rightarrow> 'p"

type_synonym box = "int \<times> int \<times> int \<times> int"

text \<open>
  The outside world: the files, whether the encoder and the file system accept writing
  a given path in a given format and mode, the format the library derives from a path's
  extension, and the trace of the calls to \<open>Image.open\<close>, \<open>Image.new\<close> and \<open>save\<close>
  with their arguments, each recorded when it is made, whatever its outcome.
  A stored picture is its format, mode, size and raster: decoding returns the raster
  that was handed to the encoder (a lossy codec is not modelled).
\<close>

datatype 'p stored_file = Picture string string "int \<times> int" "int \<times> int \<Rightarrow> 'p" | OtherData

datatype call =
    OpenCall string
  | NewCall string "int \<times> int"
  | SaveCall string "string option"

record 'p world =
  files :: "string \<rightharpoonup> 'p stored_file"
  can_save :: "string \<Rightarrow> string \<Rightarrow> string \<Rightarrow> bool"
  extension_format :: "string \<Rightarrow> string option"
  calls :: "call list"

text \<open>
  \<open>Image.open(path)\<close>: a missing file and a file that is no picture are errors. The
  library reads the pixels when they are first needed; the model reads them at the open
  (the rearranger writes no file between the open and its crops).
\<close>

definition Image_open :: "string \<Rightarrow> 'p world \<Rightarrow> (error + 'p image) \<times> 'p world" where
  "Image_open path w =
     (let w' = w\<lparr>calls := calls w @ [OpenCall path]\<rparr> in
      case files w path of
        None \<Rightarrow> (Inl FileNotFoundError, w')
      | Some OtherData \<Rightarrow> (Inl UnidentifiedImageError, w')
      | Some (Picture f m s px) \<Rightarrow>
          (Inr \<lparr>im_size = s, mode = m, format = Some f, pixel = px\<rparr>, w'))"

text \<open>\<open>Image.new(mode, size)\<close>: a raster of zeros; a negative dimension is refused.\<close>

definition Image_new ::
  "string \<Rightarrow> int \<times> int \<Rightarrow> 'p world \<Rightarrow> (error + ('p::zero) image) \<times> 'p world" where
  "Image_new m s w =
     (let w' = w\<lparr>calls := calls w @ [NewCall m s]\<rparr> in
      if fst s < 0 \<or> snd s < 0 then (Inl (ValueError ''Width and height must be >= 0''), w')
      else (Inr \<lparr>im_size = s, mode = m, format = None, pixel = (\<lambda>_. 0)\<rparr>, w'))"

text \<open>
  \<open>im.crop(box)\<close>: the result has the size of the box and the mode of \<open>im\<close>; its pixel
  \<open>(x, y)\<close> is the pixel \<open>(left + x, upper + y)\<close> of \<open>im\<close>, and zero where that lies
  outside \<open>im\<close>. A box with \<open>right < left\<close> or \<open>lower < upper\<close> is refused, with a
  message that names the two coordinates in single quotes (the character 0x27).
\<close>

definition right_less_message :: string where
  "right_less_message =
     ''Coordinate '' @ CHR 0x27 # ''right'' @ CHR 0x27 # '' is less than ''
       @ CHR 0x27 # ''left'' @ [CHR 0x27]"

definition lower_less_message :: string where
  "lower_less_message =
     ''Coordinate '' @ CHR 0x27 # ''lower'' @ CHR 0x27 # '' is less than ''
       @ CHR 0x27 # ''upper'' @ [CHR 0x27]"

definition crop :: "('p::zero) image \<Rightarrow> box \<Rightarrow> error + 'p image" where
  "crop im b =
     (case b of (left, upper, right, lower) \<Rightarrow>
        if right < left then Inl (ValueError right_less_message)
        else if lower < upper then Inl (ValueError lower_less_message)
        else Inr \<lparr>im_size = (right - left, lower - upper), mode = mode im, format = None,
                  pixel = (\<lambda>(x, y).
                     if 0 \<le> left + x \<and> left + x < fst (im_size im)
                        \<and> 0 \<le> upper + y \<and> upper + y < snd (im_size im)
                     then pixel im (left + x, upper + y) else 0)\<rparr>)"

text \<open>
  \<open>self.paste(im, box)\<close> with a 4-tuple box: the size of the box must be the size of
  \<open>im\<close> (else \<open>ValueError: images do not match\<close>); the pixels of \<open>im\<close> overwrite the box,
  clipped to \<open>self\<close>. The library converts \<open>im\<close> first when the modes differ; here both
  images always have the mode of the source image, and the model copies the pixels as
  they are.
\<close>

definition paste :: "'p image \<Rightarrow> 'p image \<Rightarrow> box \<Rightarrow> error + 'p image" where
  "paste self im b =
     (case b of (left, upper, right, lower) \<Rightarrow>
        if (right - left, lower - upper) \<noteq> im_size im
        then Inl (ValueError ''images do not match'')
        else Inr (self\<lparr>pixel := (\<lambda>(x, y).
                     if left \<le> x \<and> x < right \<and> upper \<le> y \<and> y < lower
                        \<and> 0 \<le> x \<and> x < fst (im_size self) \<and> 0 \<le> y \<and> y < snd (im_size self)
                     then pixel im (x - left, y - upper) else pixel self (x, y))\<rparr>))"

text \<open>
  \<open>im.save(path, format)\<close>: without a format the library takes the one of the path's
  extension; the encoder or the file system may refuse. A successful save stores the
  picture under the path.
\<close>

definition save ::
  "'p image \<Rightarrow> string \<Rightarrow> string option \<Rightarrow> 'p world \<Rightarrow> (error + unit) \<times> 'p world" where
  "save im path fmt w =
     (let w' = w\<lparr>calls := calls w @ [SaveCall path fmt]\<rparr> in
      case (case fmt of Some f \<Rightarrow> Some f | None \<Rightarrow> extension_format w path) of
        None \<Rightarrow> (Inl (ValueError ''unknown file extension''), w')
      | Some f \<Rightarrow>
          if can_save w path f (mode im)
          then (Inr (), w'\<lparr>files := (files w)(path \<mapsto>
                                Picture f (mode im) (im_size im) (pixel im))\<rparr>)
          else (Inl OSError, w'))"

subsection \<open>The rearranger\<close>

text \<open>
  Python's \<open>xs[i]\<close>: a negative index counts from the end, an index outside the list
  raises \<open>IndexError\<close>.
\<close>

definition py_index :: "'a list \<Rightarrow> int \<Rightarrow> error + 'a" where
  "py_index xs i =
     (if 0 \<le> i \<and> i < int (length xs) then Inr (xs ! nat i)
      else if i < 0 \<and> - int (length xs) \<le> i then Inr (xs ! nat (int (length xs) + i))
      else Inl IndexError)"

text \<open>
  \<^verbatim>\<open>
  tiles = [
      (x * width, y * height, (x + 1) * width, (y + 1) * height)
      for y in range(image_height // height)
      for x in range(image_width // width)
  ]
  \<close>
  \<open>range(n)\<close> is \<open>[0..n - 1]\<close>, empty for \<open>n \<le> 0\<close>. The outer range is evaluated first;
  the inner one only when the outer is not empty.
\<close>

definition tiles :: "int \<times> int \<Rightarrow> int \<times> int \<Rightarrow> error + box list" where
  "tiles image_size tile_size =
     (case image_size of (image_width, image_height) \<Rightarrow>
      case tile_size of (width, height) \<Rightarrow>
        if height = 0 then Inl ZeroDivisionError
        else if 0 < image_height div height \<and> width = 0 then Inl ZeroDivisionError
        else Inr (concat (map (\<lambda>y. map (\<lambda>x. (x * width, y * height,
                                                  (x + 1) * width, (y + 1) * height))
                                          [0..image_width div width - 1])
                              [0..image_height div height - 1])))"

text \<open>
  \<^verbatim>\<open>
  images = (source_image.crop(tiles[i]) for i in ordering)
  ...
  for image, box in zip(images, tiles):
      image_out.paste(image, box)
      image.close()
  \<close>
  \<open>zip\<close> asks its first argument for the next element before the second: the generator
  indexes \<open>tiles\<close> and crops, and only then \<open>zip\<close> takes the next box and stops when
  there is none. The loop ends when the ordering is used up or the boxes are.
\<close>

fun paste_loop ::
  "('p::zero) image \<Rightarrow> box list \<Rightarrow> int list \<Rightarrow> box list \<Rightarrow> 'p image \<Rightarrow> error + 'p image" where
  "paste_loop source_image ts [] boxes image_out = Inr image_out"
| "paste_loop source_image ts (i # ordering') boxes image_out =
     (case py_index ts i of
        Inl e \<Rightarrow> Inl e
      | Inr t \<Rightarrow>
          (case crop source_image t of
             Inl e \<Rightarrow> Inl e
           | Inr image' \<Rightarrow>
               (case boxes of
                  [] \<Rightarrow> Inr image_out
                | b # boxes' \<Rightarrow>
                    (case paste image_out image' b of
                       Inl e \<Rightarrow> Inl e
                     | Inr image_out' \<Rightarrow>
                         paste_loop source_image ts ordering' boxes' image_out'))))"

definition invalid_message :: string where
  "invalid_message = ''The tile size or ordering are not valid for the given image''"

text \<open>
  \<open>rearrange_tiles\<close>: every exception leaves the function at once; the world it leaves
  behind is the one reached so far.
\<close>

definition rearrange_tiles ::
  "string \<Rightarrow> int \<times> int \<Rightarrow> int list \<Rightarrow> string \<Rightarrow> ('p::zero) world
     \<Rightarrow> (error + unit) \<times> 'p world" where
  "rearrange_tiles image_path tile_size ordering' out_path w =
     (case Image_open image_path w of
        (Inl e, w1) \<Rightarrow> (Inl e, w1)
      | (Inr source_image, w1) \<Rightarrow>
          (case valid_input (im_size source_image) tile_size ordering' of
             Inl e \<Rightarrow> (Inl e, w1)
           | Inr False \<Rightarrow> (Inl (ValueError invalid_message), w1)
           | Inr True \<Rightarrow>
               (case tiles (im_size source_image) tile_size of
                  Inl e \<Rightarrow> (Inl e, w1)
                | Inr ts \<Rightarrow>
                    (case Image_new (mode source_image) (im_size source_image) w1 of
                       (Inl e, w2) \<Rightarrow> (Inl e, w2)
                     | (Inr image_out, w2) \<Rightarrow>
                         (case paste_loop source_image ts ordering' ts image_out of
                            Inl e \<Rightarrow> (Inl e, w2)
                          | Inr image_out' \<Rightarrow>
                              save image_out' out_path (format source_image) w2)))))"

subsection \<open>Notions the properties are stated with\<close>

text \<open>The width and height of a box.\<close>

definition box_size :: "box \<Rightarrow> int \<times> int" where
  "box_size b = (case b of (left, upper, right, lower) \<Rightarrow> (right - left, lower - upper))"

text \<open>A point lies in a box: the left and upper edges belong to it, the right and lower do not.\<close>

definition in_box :: "box \<Rightarrow> int \<times> int \<Rightarrow> bool" where
  "in_box b p = (case b of (left, upper, right, lower) \<Rightarrow>
                   left \<le> fst p \<and> fst p < right \<and> upper \<le> snd p \<and> snd p < lower)"

text \<open>A point lies inside an image of the given size.\<close>

definition inside :: "int \<times> int \<Rightarrow> int \<times> int \<Rightarrow> bool" where
  "inside s p \<longleftrightarrow> 0 \<le> fst p \<and> fst p < fst s \<and> 0 \<le> snd p \<and> snd p < snd s"

text \<open>The box the grid has at the flat index \<open>j\<close>, for a grid of \<open>cols\<close> columns.\<close>

definition box_at :: "int \<Rightarrow> int \<Rightarrow> int \<Rightarrow> int \<Rightarrow> box" where
  "box_at cols w h j =
     ((j mod cols) * w, (j div cols) * h, (j mod cols + 1) * w, (j div cols + 1) * h)"

text \<open>An ordering that is a permutation of the tile indices \<open>0, ..., n - 1\<close>:
  every index once.\<close>

definition is_arrangement :: "int \<Rightarrow> int list \<Rightarrow> bool" where
  "is_arrangement n ord \<longleftrightarrow> distinct ord \<and> set ord = set [0..n - 1]"

text \<open>Where the pixel of the output at \<open>(x, y)\<close> comes from when the tile of index
  \<open>ordering[k]\<close> is pasted at the box of index \<open>k\<close>: the same offset inside the tile.\<close>

definition source_of :: "int \<Rightarrow> int \<Rightarrow> int \<Rightarrow> int list \<Rightarrow> int \<times> int \<Rightarrow> int \<times> int" where
  "source_of cols w h ord p =
     (case p of (x, y) \<Rightarrow>
        let j = ord ! nat ((y div h) * cols + x div w)
        in ((j mod cols) * w + x mod w, (j div cols) * h + y mod h))"

text \<open>
  The pixel content of a box of a raster, row by row. Two images of the same size are
  pixel-identical when their rasters have the same content on the box of the whole image.
\<close>

definition box_content :: "(int \<times> int \<Rightarrow> 'p) \<Rightarrow> box \<Rightarrow> 'p list list" where
  "box_content px b =
     (case b of (left, upper, right, lower) \<Rightarrow>
        map (\<lambda>y. map (\<lambda>x. px (x, y)) [left..right - 1]) [upper..lower - 1])"

text \<open>A small world for examples: one 4 x 2 picture whose pixel \<open>(x, y)\<close> is \<open>10 y + x\<close>.\<close>

definition demo_world :: "int world" where
  "demo_world =
     \<lparr>files = [''in.png'' \<mapsto> Picture ''PNG'' ''L'' (4, 2) (\<lambda>(x, y). 10 * y + x)],
      can_save = (\<lambda>path f m. f = ''PNG''),
      extension_format = (\<lambda>path. None),
      calls = []\<rparr>"

text \<open>
  The inverse of an arrangement: its entry \<open>i\<close> is the position at which the arrangement
  has \<open>i\<close>. (The source has no such function; the round-trip property is stated with it.)
\<close>

fun index_of :: "'a list \<Rightarrow> 'a \<Rightarrow> nat" where
  "index_of [] x = 0"
| "index_of (y # ys) x = (if y = x then 0 else Suc (index_of ys x))"


section \<open>Properties of the validator\<close>

lemma or_zero_int: "(a::int) OR b = 0 \<longleftrightarrow> a = 0 \<and> b = 0"
  by (rule or_eq_0_iff)

lemma xor_zero_int: "(a::int) XOR b = 0 \<longleftrightarrow> a = b"
  by (metis xor.right_neutral xor_self_eq xor.left_commute xor.commute)

text \<open>
  With a tile size free of zeros the validator returns a boolean: the tile size divides
  both dimensions and the ordering has as many distinct values as the grid has tiles.
\<close>

lemma valid_input_char:
  "w \<noteq> 0 \<Longrightarrow> h \<noteq> 0 \<Longrightarrow>
   valid_input (W, H) (w, h) ord =
     Inr (W mod w = 0 \<and> H mod h = 0 \<and> int (card (set ord)) = (W div w) * (H div h))"
  by (auto simp: valid_input_def or_zero_int xor_zero_int length_remdups_card_conv)

text \<open>
  C4: for a tile size with positive width and height, the validator returns False as soon
  as the tile width does not divide the image width or the tile height does not divide
  the image height, whatever the ordering is.
\<close>

theorem valid_input_rejects_indivisible:
  "0 < w \<Longrightarrow> 0 < h \<Longrightarrow> W mod w \<noteq> 0 \<or> H mod h \<noteq> 0 \<Longrightarrow>
   valid_input (W, H) (w, h) ord = Inr False"
  by (auto simp: valid_input_char)

theorem valid_input_rejects_indivisible_witness:
  "(0::int) < 2 \<and> (5::int) mod 2 \<noteq> 0 \<and> valid_input (5, 4) (2, 2) [0, 1, 2, 3] = Inr False"
  using valid_input_rejects_indivisible [of 2 2 5 4 "[0, 1, 2, 3]"] by simp

text \<open>
  C8: for a tile size with positive width and height, the validator is total: it raises
  nothing and returns a boolean for every image size and every ordering. It takes no
  world and returns none, so it has no effect.
\<close>

theorem valid_input_total:
  "0 < w \<Longrightarrow> 0 < h \<Longrightarrow> \<exists>b. valid_input (W, H) (w, h) ord = Inr b"
  by (simp add: valid_input_char)

theorem valid_input_total_witness:
  "(0::int) < 2 \<and> (\<exists>b. valid_input (4, 4) (2, 2) [0, 1, 2, 2] = Inr b)"
  using valid_input_total [of 2 2 4 4 "[0, 1, 2, 2]"] by simp

text \<open>
  C10: the verdict of the validator depends on the ordering only through the set of its
  values: two orderings with the same set of values get the same result, whatever their
  lengths, their order, their duplicates and the range of their values.
\<close>

theorem valid_input_value_set:
  "set ord1 = set ord2 \<Longrightarrow>
   valid_input image_size tile_size ord1 = valid_input image_size tile_size ord2"
  by (cases image_size; cases tile_size)
     (simp add: valid_input_def length_remdups_card_conv)

theorem valid_input_value_set_witness:
  "set [0, 1, 2, 7 :: int] = set [7, 7, 2, 1, 0]
   \<and> valid_input (4, 4) (2, 2) [0, 1, 2, 7] = valid_input (4, 4) (2, 2) [7, 7, 2, 1, 0]"
proof -
  have h: "set [0, 1, 2, 7 :: int] = set [7, 7, 2, 1, 0]" by auto
  from h valid_input_value_set [OF h, of "(4, 4)" "(2, 2)"] show ?thesis by blast
qed

text \<open>
  C2: the validator should return False for an ordering that is no permutation of the
  tile indices. It counts distinct values only: on a 4 x 4 image with 2 x 2 tiles (four
  tiles) it accepts an ordering with the index 7, which no tile has, and an ordering of
  five entries. The rearranger then runs on such an ordering: on the 4 x 2 example
  picture with 2 x 2 tiles (two tiles) the ordering \<open>[0, 7]\<close> ends in an \<open>IndexError\<close>
  and not in the validation error.
\<close>

theorem valid_input_accepts_non_permutation:
  "valid_input (4, 4) (2, 2) [0, 1, 2, 7] = Inr True
   \<and> valid_input (4, 4) (2, 2) [0, 1, 2, 3, 3] = Inr True
   \<and> fst (rearrange_tiles ''in.png'' (2, 2) [0, 7] ''out.png'' demo_world) = Inl IndexError"
proof (intro conjI)
  show "valid_input (4, 4) (2, 2) [0, 1, 2, 7] = Inr True"
    by (simp add: valid_input_def)
  show "valid_input (4, 4) (2, 2) [0, 1, 2, 3, 3] = Inr True"
    by (simp add: valid_input_def)
  show "fst (rearrange_tiles ''in.png'' (2, 2) [0, 7] ''out.png'' demo_world) = Inl IndexError"
    by code_simp
qed

section \<open>The grid of boxes\<close>

lemma range_upto: "[0..n - 1] = map int [0..<nat n]"
  by (rule nth_equalityI) auto

lemma concat_map_nth:
  "i < length ys \<Longrightarrow> j < length xs \<Longrightarrow>
   concat (map (\<lambda>y. map (f y) xs) ys) ! (i * length xs + j) = f (ys ! i) (xs ! j)"
proof (induction ys arbitrary: i)
  case Nil
  then show ?case by simp
next
  case (Cons y ys)
  show ?case
  proof (cases i)
    case 0
    with Cons.prems show ?thesis by (simp add: nth_append)
  next
    case (Suc i')
    with Cons.prems have "i' < length ys" by simp
    from Cons.IH [OF this Cons.prems(2)] Suc show ?thesis
      by (simp add: nth_append)
  qed
qed

lemma length_concat_map:
  "length (concat (map (\<lambda>y. map (f y) xs) ys)) = length ys * length xs"
  by (induction ys) auto

lemma tiles_Inr:
  "w \<noteq> 0 \<Longrightarrow> h \<noteq> 0 \<Longrightarrow> \<exists>ts. tiles (W, H) (w, h) = Inr ts"
  by (simp add: tiles_def)

lemma tiles_length:
  "tiles (W, H) (w, h) = Inr ts \<Longrightarrow> length ts = nat (H div h) * nat (W div w)"
  by (auto simp: tiles_def length_concat_map split: if_splits)

lemma tiles_nth:
  assumes "tiles (W, H) (w, h) = Inr ts" "r < nat (H div h)" "c < nat (W div w)"
  shows "ts ! (r * nat (W div w) + c)
           = (int c * w, int r * h, (int c + 1) * w, (int r + 1) * h)"
proof -
  let ?xs = "[0..W div w - 1]" and ?ys = "[0..H div h - 1]"
  let ?f = "\<lambda>y x. (x * w, y * h, (x + 1) * w, (y + 1) * h)"
  from assms(1) have ts: "ts = concat (map (\<lambda>y. map (?f y) ?xs) ?ys)"
    by (auto simp: tiles_def split: if_splits)
  have lx: "length ?xs = nat (W div w)" and ly: "length ?ys = nat (H div h)" by simp_all
  have "ts ! (r * length ?xs + c) = ?f (?ys ! r) (?xs ! c)"
    unfolding ts by (rule concat_map_nth) (use assms lx ly in simp_all)
  moreover have "?ys ! r = int r" using assms(2) by (simp add: range_upto)
  moreover have "?xs ! c = int c" using assms(3) by (simp add: range_upto)
  ultimately show ?thesis by (simp add: lx)
qed

lemma div_eq_iff_bounds:
  assumes "0 < (w::int)"
  shows "(c * w \<le> x \<and> x < (c + 1) * w) \<longleftrightarrow> x div w = c"
proof
  assume a: "c * w \<le> x \<and> x < (c + 1) * w"
  show "x div w = c"
    by (rule int_div_pos_eq [where r = "x - c * w"]) (use a in \<open>simp_all add: algebra_simps\<close>)
next
  assume c: "x div w = c"
  have "w * (x div w) \<le> x" "x < w + w * (x div w)"
    using mult_div_mod_eq [of w x] pos_mod_sign [OF assms, of x] pos_mod_bound [OF assms, of x]
    by linarith+
  then show "c * w \<le> x \<and> x < (c + 1) * w"
    unfolding c [symmetric] by (simp add: algebra_simps)
qed

lemma div_less_of_less_mult:
  assumes "0 < (n::int)" "j < n * m"
  shows "j div n < m"
proof (rule ccontr)
  assume "\<not> j div n < m"
  then have "m \<le> j div n" by simp
  then have "n * m \<le> n * (j div n)" using assms(1) by (simp add: mult_left_mono)
  moreover have "n * (j div n) \<le> j"
    using mult_div_mod_eq [of n j] pos_mod_sign [OF assms(1), of j] by linarith
  ultimately show False using assms(2) by simp
qed

lemma in_box_box_at:
  "0 < w \<Longrightarrow> 0 < h \<Longrightarrow>
   in_box (box_at cols w h j) (x, y) \<longleftrightarrow> x div w = j mod cols \<and> y div h = j div cols"
  by (simp add: in_box_def box_at_def div_eq_iff_bounds [symmetric])

lemma tiles_box_at:
  assumes "tiles (W, H) (w, h) = Inr ts" "0 \<le> j" "j < (W div w) * (H div h)" "0 < W div w"
  shows "ts ! nat j = box_at (W div w) w h j"
proof -
  let ?cols = "W div w"
  have r: "0 \<le> j div ?cols" "j div ?cols < H div h"
    using assms(2-4) by (simp_all add: pos_imp_zdiv_nonneg_iff div_less_of_less_mult)
  have c: "0 \<le> j mod ?cols" "j mod ?cols < ?cols" using assms(4) by simp_all
  have "nat j = nat (j div ?cols) * nat ?cols + nat (j mod ?cols)"
    using assms(2,4) r c by (simp add: nat_div_distrib' nat_mod_distrib)
  moreover have "ts ! (nat (j div ?cols) * nat ?cols + nat (j mod ?cols))
        = (int (nat (j mod ?cols)) * w, int (nat (j div ?cols)) * h,
           (int (nat (j mod ?cols)) + 1) * w, (int (nat (j div ?cols)) + 1) * h)"
    by (rule tiles_nth [OF assms(1)]) (use r c in simp_all)
  ultimately show ?thesis using r c by (simp add: box_at_def)
qed

section \<open>The library operations and the paste loop\<close>

lemma crop_Inr:
  "0 \<le> fst (box_size t) \<Longrightarrow> 0 \<le> snd (box_size t) \<Longrightarrow>
   \<exists>im. crop src t = Inr im \<and> im_size im = box_size t \<and> mode im = mode src
      \<and> (\<forall>q. inside (im_size src) (fst t + fst q, fst (snd t) + snd q)
             \<longrightarrow> pixel im q = pixel src (fst t + fst q, fst (snd t) + snd q))"
  by (cases t) (auto simp: crop_def box_size_def inside_def)

lemma paste_Inr:
  "paste self im b = Inr out \<Longrightarrow>
   im_size out = im_size self \<and> mode out = mode self \<and> format out = format self
   \<and> pixel out p = (if in_box b p \<and> inside (im_size self) p
                     then pixel im (fst p - fst b, snd p - fst (snd b)) else pixel self p)"
  by (cases b; cases p) (auto simp: paste_def in_box_def inside_def split: if_splits)

lemma paste_ok: "box_size b = im_size im \<Longrightarrow> \<exists>out. paste self im b = Inr out"
  by (cases b) (auto simp: paste_def box_size_def)

lemma paste_loop_step:
  "paste_loop src ts (i # ord) (b # boxes) out = Inr out' \<Longrightarrow>
   \<exists>t im out1. py_index ts i = Inr t \<and> crop src t = Inr im \<and> paste out im b = Inr out1
      \<and> paste_loop src ts ord boxes out1 = Inr out'"
  by (auto split: sum.splits)

lemma paste_loop_no_box:
  "paste_loop src ts ord [] out = Inr out' \<Longrightarrow> out' = out"
  by (cases ord) (auto split: sum.splits)

lemma paste_loop_frame:
  "paste_loop src ts ord boxes out = Inr out' \<Longrightarrow>
   im_size out' = im_size out \<and> mode out' = mode out \<and> format out' = format out
   \<and> ((\<forall>b\<in>set boxes. \<not> in_box b p) \<longrightarrow> pixel out' p = pixel out p)"
proof (induction ord arbitrary: boxes out)
  case Nil
  then show ?case by simp
next
  case (Cons i ord)
  note run = Cons.prems and IH = Cons.IH
  show ?case
  proof (cases boxes)
    case Nil
    with run have "out' = out" by (simp only: paste_loop_no_box)
    then show ?thesis by simp
  next
    case (Cons b boxes')
    with run obtain t im out1 where
      p: "paste out im b = Inr out1" and l: "paste_loop src ts ord boxes' out1 = Inr out'"
      by (blast dest: paste_loop_step)
    from IH [OF l] paste_Inr [OF p, of p] Cons show ?thesis by auto
  qed
qed

lemma paste_loop_pixel:
  "paste_loop src ts ord boxes out = Inr out' \<Longrightarrow> k < length ord \<Longrightarrow> k < length boxes \<Longrightarrow>
   in_box (boxes ! k) p \<Longrightarrow> inside (im_size out) p \<Longrightarrow>
   (\<forall>j. k < j \<and> j < length boxes \<longrightarrow> \<not> in_box (boxes ! j) p) \<Longrightarrow>
   \<exists>t im. py_index ts (ord ! k) = Inr t \<and> crop src t = Inr im
      \<and> pixel out' p = pixel im (fst p - fst (boxes ! k), snd p - fst (snd (boxes ! k)))"
proof (induction ord arbitrary: boxes out k)
  case Nil
  then show ?case by simp
next
  case (Cons i ord)
  from Cons.prems(3) obtain b boxes' where boxes: "boxes = b # boxes'" by (cases boxes) auto
  with Cons.prems(1) obtain t im out1 where
    ix: "py_index ts i = Inr t" and cr: "crop src t = Inr im" and
    p: "paste out im b = Inr out1" and l: "paste_loop src ts ord boxes' out1 = Inr out'"
    by (blast dest: paste_loop_step)
  show ?case
  proof (cases k)
    case 0
    have "\<forall>b'\<in>set boxes'. \<not> in_box b' p"
    proof
      fix b' assume "b' \<in> set boxes'"
      then obtain j where "j < length boxes'" "boxes' ! j = b'" by (auto simp: in_set_conv_nth)
      with Cons.prems(6) [rule_format, of "Suc j"] 0 boxes show "\<not> in_box b' p" by simp
    qed
    with paste_loop_frame [OF l, of p] have "pixel out' p = pixel out1 p" by simp
    with paste_Inr [OF p, of p] Cons.prems(4,5) 0 boxes ix cr show ?thesis by simp
  next
    case (Suc k')
    have "\<exists>t im. py_index ts (ord ! k') = Inr t \<and> crop src t = Inr im
      \<and> pixel out' p = pixel im (fst p - fst (boxes' ! k'), snd p - fst (snd (boxes' ! k')))"
    proof (rule Cons.IH [OF l])
      show "k' < length ord" "k' < length boxes'" "in_box (boxes' ! k') p"
        using Cons.prems(2-4) Suc boxes by simp_all
      show "inside (im_size out1) p" using paste_Inr [OF p, of p] Cons.prems(5) by simp
      show "\<forall>j. k' < j \<and> j < length boxes' \<longrightarrow> \<not> in_box (boxes' ! j) p"
      proof (intro allI impI)
        fix j assume "k' < j \<and> j < length boxes'"
        with Cons.prems(6) [rule_format, of "Suc j"] Suc boxes show "\<not> in_box (boxes' ! j) p"
          by simp
      qed
    qed
    with Suc boxes show ?thesis by simp
  qed
qed

lemma paste_loop_ok:
  "\<forall>i\<in>set ord. \<exists>t. py_index ts i = Inr t \<and> box_size t = s \<Longrightarrow>
   \<forall>b\<in>set boxes. box_size b = s \<Longrightarrow> 0 \<le> fst s \<Longrightarrow> 0 \<le> snd s \<Longrightarrow>
   \<exists>out'. paste_loop src ts ord boxes out = Inr out'"
proof (induction ord arbitrary: boxes out)
  case Nil
  then show ?case by simp
next
  case (Cons i ord)
  note prems = Cons.prems and IH = Cons.IH
  from prems(1) obtain t where ix: "py_index ts i = Inr t" and sz: "box_size t = s" by auto
  from crop_Inr [of t src] sz prems(3,4) obtain im where
    cr: "crop src t = Inr im" and ims: "im_size im = s" by auto
  show ?case
  proof (cases boxes)
    case Nil
    with ix cr show ?thesis by simp
  next
    case (Cons b boxes')
    with prems(2) ims have "box_size b = im_size im" by simp
    from paste_ok [OF this] obtain out1 where p: "paste out im b = Inr out1" by blast
    have "\<exists>out'. paste_loop src ts ord boxes' out1 = Inr out'"
      by (rule IH) (use prems Cons in auto)
    with ix cr p Cons show ?thesis by simp
  qed
qed

section \<open>The loop on the grid\<close>

lemma arrangement_facts:
  assumes "is_arrangement n ord" "0 \<le> n"
  shows "length ord = nat n" "int (card (set ord)) = n" "\<forall>i\<in>set ord. 0 \<le> i \<and> i < n"
proof -
  from assms(1) have d: "distinct ord" and s: "set ord = {0..n - 1}"
    by (simp_all add: is_arrangement_def)
  have "card (set ord) = nat n" unfolding s using assms(2) by simp
  then show "int (card (set ord)) = n" using assms(2) by simp
  from \<open>card (set ord) = nat n\<close> d show "length ord = nat n" by (simp add: distinct_card)
  show "\<forall>i\<in>set ord. 0 \<le> i \<and> i < n" unfolding s by auto
qed

lemma py_index_in_range:
  "0 \<le> i \<Longrightarrow> i < int (length xs) \<Longrightarrow> py_index xs i = Inr (xs ! nat i)"
  by (simp add: py_index_def)

lemma box_size_box_at: "box_size (box_at cols w h j) = (w, h)"
  by (simp add: box_size_def box_at_def algebra_simps)

text \<open>The grid of a W x H image cut into w x h tiles.\<close>

lemma grid_counts:
  assumes "0 < (w::int)" "0 \<le> W"
  shows "0 \<le> W div w"
  using assms by (simp add: pos_imp_zdiv_nonneg_iff)

lemma grid_cols_pos:
  assumes "0 \<le> (cols::int)" "0 \<le> j" "j < cols * rows"
  shows "0 < cols"
proof (rule ccontr)
  assume "\<not> 0 < cols"
  with assms(1) have "cols = 0" by simp
  with assms(2,3) show False by simp
qed

lemma grid_index:
  assumes "0 < (cols::int)" "0 \<le> c" "c < cols" "0 \<le> r" "r < rows"
  shows "0 \<le> r * cols + c" "r * cols + c < cols * rows"
    "(r * cols + c) mod cols = c" "(r * cols + c) div cols = r"
proof -
  show "0 \<le> r * cols + c" using assms by simp
  have "r + 1 \<le> rows" using assms(5) by simp
  then have "(r + 1) * cols \<le> rows * cols" using assms(1) by (simp only: mult_right_mono)
  then show "r * cols + c < cols * rows" using assms(3) by (simp add: algebra_simps)
  show "(r * cols + c) mod cols = c" using assms(2,3) by simp
  show "(r * cols + c) div cols = r" using assms(1-3) by simp
qed

lemma tiles_all_box_at:
  assumes ts: "tiles (W, H) (w, h) = Inr ts" and "0 < w" "0 < h" "0 \<le> W" "0 \<le> H"
    and "k < length ts"
  shows "ts ! k = box_at (W div w) w h (int k)" "0 < W div w" "int k < (W div w) * (H div h)"
proof -
  have len: "length ts = nat (H div h) * nat (W div w)" by (rule tiles_length [OF ts])
  have nn: "0 \<le> W div w" "0 \<le> H div h" using assms by (simp_all add: grid_counts)
  then have "int (length ts) = (W div w) * (H div h)" using len by simp
  with assms(6) show lt: "int k < (W div w) * (H div h)" by simp
  show pos: "0 < W div w" by (rule grid_cols_pos [OF nn(1) _ lt]) simp
  from tiles_box_at [OF ts _ lt pos] show "ts ! k = box_at (W div w) w h (int k)" by simp
qed

lemma tile_point_inside:
  assumes "0 < (w::int)" "0 \<le> a" "a < n" "0 \<le> d" "d < w"
  shows "0 \<le> a * w + d" "a * w + d < w * n"
proof -
  show "0 \<le> a * w + d" using assms by simp
  have "a + 1 \<le> n" using assms(3) by simp
  then have "(a + 1) * w \<le> n * w" using assms(1) by (simp only: mult_right_mono)
  then show "a * w + d < w * n" using assms(5) by (simp add: algebra_simps)
qed

lemma exact_div: "(W::int) mod w = 0 \<Longrightarrow> W = w * (W div w)"
  by auto

lemma sub_tile_origin: "(x::int) - (x div w) * w = x mod w"
  by (simp add: minus_div_mult_eq_mod)

lemma grid_loop:
  assumes ts: "tiles (W, H) (w, h) = Inr ts"
    and pos: "0 < w" "0 < h" and nn: "0 \<le> W" "0 \<le> H"
    and dv: "W mod w = 0" "H mod h = 0"
    and arr: "is_arrangement ((W div w) * (H div h)) ord"
    and src: "im_size src = (W, H)" and out: "im_size out = (W, H)"
  shows "\<exists>out'. paste_loop src ts ord ts out = Inr out'
           \<and> im_size out' = (W, H) \<and> mode out' = mode out
           \<and> (\<forall>x y. 0 \<le> x \<and> x < W \<and> 0 \<le> y \<and> y < H \<longrightarrow>
                 pixel out' (x, y) = pixel src (source_of (W div w) w h ord (x, y)))"
proof -
  let ?cols = "W div w" and ?rows = "H div h"
  let ?N = "?cols * ?rows"
  have cr: "0 \<le> ?cols" "0 \<le> ?rows" using pos nn by (simp_all add: grid_counts)
  then have N: "0 \<le> ?N" by simp
  have len: "length ts = nat ?N"
    using tiles_length [OF ts] cr by (simp add: nat_mult_distrib mult.commute)
  note af = arrangement_facts [OF arr N]
  have box: "ts ! k = box_at ?cols w h (int k)" if "k < length ts" for k
    using tiles_all_box_at(1) [OF ts pos nn that] .
  have ix: "py_index ts i = Inr (box_at ?cols w h i)" if "i \<in> set ord" for i
  proof -
    from af(3) that have i: "0 \<le> i" "i < ?N" by auto
    then have "nat i < length ts" using len by simp
    from box [OF this] i len show ?thesis by (simp add: py_index_in_range)
  qed
  have "\<exists>out'. paste_loop src ts ord ts out = Inr out'"
  proof (rule paste_loop_ok [where s = "(w, h)"])
    show "\<forall>i\<in>set ord. \<exists>t. py_index ts i = Inr t \<and> box_size t = (w, h)"
      using ix by (auto simp: box_size_box_at)
    show "\<forall>b\<in>set ts. box_size b = (w, h)"
    proof
      fix b assume "b \<in> set ts"
      then obtain k where "k < length ts" "b = ts ! k" by (metis in_set_conv_nth)
      then show "box_size b = (w, h)" by (simp only: box box_size_box_at)
    qed
  qed (use pos in simp_all)
  then obtain out' where run: "paste_loop src ts ord ts out = Inr out'" ..
  note fr = paste_loop_frame [OF run]
  have px: "pixel out' (x, y) = pixel src (source_of ?cols w h ord (x, y))"
    if xy: "0 \<le> x" "x < W" "0 \<le> y" "y < H" for x y
  proof -
    let ?c = "x div w" and ?r = "y div h"
    let ?k = "?r * ?cols + ?c"
    have W: "W = w * ?cols" and H: "H = h * ?rows" using dv by (simp_all only: exact_div)
    have c: "0 \<le> ?c" "?c < ?cols"
      using xy(1,2) pos(1) W by (simp_all add: pos_imp_zdiv_nonneg_iff div_less_of_less_mult)
    have r: "0 \<le> ?r" "?r < ?rows"
      using xy(3,4) pos(2) H by (simp_all add: pos_imp_zdiv_nonneg_iff div_less_of_less_mult)
    have cols: "0 < ?cols" using c by simp
    note gi = grid_index [OF cols c r]
    have k: "nat ?k < length ts" using gi(1,2) len by simp
    have bk: "ts ! nat ?k = box_at ?cols w h ?k" using box [OF k] gi(1) by simp
    have here: "in_box (ts ! nat ?k) (x, y)"
      unfolding bk using gi(3,4) pos by (simp add: in_box_box_at)
    have later: "\<forall>j. nat ?k < j \<and> j < length ts \<longrightarrow> \<not> in_box (ts ! j) (x, y)"
    proof (intro allI impI notI)
      fix j assume j: "nat ?k < j \<and> j < length ts" and "in_box (ts ! j) (x, y)"
      then have "in_box (box_at ?cols w h (int j)) (x, y)" using box by simp
      then have "?c = int j mod ?cols" "?r = int j div ?cols"
        using pos by (simp_all add: in_box_box_at)
      then have "int j = ?k" using div_mult_mod_eq [of "int j" ?cols] by simp
      then have "nat ?k = j" by (metis nat_int)
      with j show False by simp
    qed
    from paste_loop_pixel [OF run _ k here _ later] af(1) len k out xy
    obtain t im where t: "py_index ts (ord ! nat ?k) = Inr t" and im: "crop src t = Inr im"
      and p: "pixel out' (x, y) = pixel im (x - fst (ts ! nat ?k), y - fst (snd (ts ! nat ?k)))"
      by (auto simp: inside_def)
    let ?j = "ord ! nat ?k"
    have jin: "?j \<in> set ord" using k af(1) len by simp
    then have j: "0 \<le> ?j" "?j < ?N" using af(3) by auto
    have tj: "t = box_at ?cols w h ?j" using ix [OF jin] t by simp
    have jc: "0 \<le> ?j mod ?cols" "?j mod ?cols < ?cols" using cols by simp_all
    have jr: "0 \<le> ?j div ?cols" "?j div ?cols < ?rows"
      using j cols by (simp_all add: pos_imp_zdiv_nonneg_iff div_less_of_less_mult)
    have mx: "0 \<le> x mod w" "x mod w < w" and my: "0 \<le> y mod h" "y mod h < h"
      using pos by simp_all
    have ins: "inside (im_size src) ((?j mod ?cols) * w + x mod w, (?j div ?cols) * h + y mod h)"
      unfolding src inside_def fst_conv snd_conv
      using tile_point_inside [OF pos(1) jc mx] tile_point_inside [OF pos(2) jr my] W H
      by simp
    from crop_Inr [of t src] im pos
    have "\<forall>q. inside (im_size src) (fst t + fst q, fst (snd t) + snd q)
             \<longrightarrow> pixel im q = pixel src (fst t + fst q, fst (snd t) + snd q)"
      by (auto simp: tj box_size_box_at)
    from this [rule_format, of "(x mod w, y mod h)"] ins
    have "pixel im (x mod w, y mod h)
            = pixel src ((?j mod ?cols) * w + x mod w, (?j div ?cols) * h + y mod h)"
      by (simp add: tj box_at_def)
    moreover have "fst (ts ! nat ?k) = ?c * w" "fst (snd (ts ! nat ?k)) = ?r * h"
      unfolding bk box_at_def fst_conv snd_conv gi(3) gi(4) by (rule refl)+
    then have "x - fst (ts ! nat ?k) = x mod w" "y - fst (snd (ts ! nat ?k)) = y mod h"
      by (simp_all only: sub_tile_origin)
    ultimately show ?thesis using p by (simp add: source_of_def Let_def)
  qed
  from run fr [of "(0, 0)"] px out show ?thesis by auto
qed

section \<open>Properties of the rearranger\<close>

text \<open>
  C5: the boxes are enumerated row by row, the column varying fastest: the grid has
  \<open>(W div w) * (H div h)\<close> boxes, and the lookup that the rearranger makes for an
  entry \<open>r * cols + c\<close> of the ordering, with \<open>r\<close> a row and \<open>c\<close> a column of the
  grid, returns the box \<open>(c * w, r * h, (c + 1) * w, (r + 1) * h)\<close>.
\<close>

theorem tiles_row_major:
  assumes "0 \<le> r" "r < H div h" "0 \<le> c" "c < W div w"
  shows "\<exists>ts. tiles (W, H) (w, h) = Inr ts
           \<and> int (length ts) = (W div w) * (H div h)
           \<and> py_index ts (r * (W div w) + c) = Inr (c * w, r * h, (c + 1) * w, (r + 1) * h)"
proof -
  have "w \<noteq> 0" "h \<noteq> 0" using assms by auto
  then obtain ts where ts: "tiles (W, H) (w, h) = Inr ts" using tiles_Inr by blast
  have len: "int (length ts) = (W div w) * (H div h)"
    using tiles_length [OF ts] assms by simp
  have cols: "0 < W div w" using assms(3,4) by simp
  note gi = grid_index [OF cols assms(3,4,1,2)]
  have "nat (r * (W div w) + c) = nat r * nat (W div w) + nat c"
    using assms by (simp add: nat_add_distrib nat_mult_distrib)
  moreover have "ts ! (nat r * nat (W div w) + nat c)
      = (int (nat c) * w, int (nat r) * h, (int (nat c) + 1) * w, (int (nat r) + 1) * h)"
    by (rule tiles_nth [OF ts]) (use assms in simp_all)
  ultimately have "ts ! nat (r * (W div w) + c) = (c * w, r * h, (c + 1) * w, (r + 1) * h)"
    using assms by simp
  with gi(1,2) len have
    "py_index ts (r * (W div w) + c) = Inr (c * w, r * h, (c + 1) * w, (r + 1) * h)"
    by (simp add: py_index_in_range)
  with ts len show ?thesis by blast
qed

theorem tiles_row_major_witness:
  "(0::int) \<le> 1 \<and> (1::int) < 4 div 2 \<and> (0::int) \<le> 0 \<and> (0::int) < 4 div 2
   \<and> (\<exists>ts. tiles (4, 4) (2, 2) = Inr ts
           \<and> int (length ts) = (4 div 2) * (4 div 2)
           \<and> py_index ts (1 * (4 div 2) + 0) = Inr (0 * 2, 1 * 2, (0 + 1) * 2, (1 + 1) * 2))"
  using tiles_row_major [of 1 4 2 0 4 2] by simp

text \<open>
  A run on a picture whose size the tile size divides, with an ordering that is a
  permutation of the tile indices and a canvas the encoder accepts: the run succeeds,
  the world gains the output file and the three calls, and each pixel of the output is
  the pixel of the source at the same offset in the tile the ordering names.
\<close>

lemma rearrange_tiles_run:
  assumes src_file: "files wd image_path = Some (Picture f m (W, H) px)"
    and pos: "0 < w" "0 < h" and nn: "0 \<le> W" "0 \<le> H"
    and dv: "W mod w = 0" "H mod h = 0"
    and arr: "is_arrangement ((W div w) * (H div h)) ord"
    and sv: "can_save wd out_path f m"
  shows "\<exists>px'. rearrange_tiles image_path (w, h) ord out_path wd =
           (Inr (), wd\<lparr>files := (files wd)(out_path \<mapsto> Picture f m (W, H) px'),
                        calls := calls wd @ [OpenCall image_path, NewCall m (W, H),
                                             SaveCall out_path (Some f)]\<rparr>)
         \<and> (\<forall>x y. 0 \<le> x \<and> x < W \<and> 0 \<le> y \<and> y < H \<longrightarrow>
               px' (x, y) = px (source_of (W div w) w h ord (x, y)))"
proof -
  let ?src = "\<lparr>im_size = (W, H), mode = m, format = Some f, pixel = px\<rparr>"
  let ?w1 = "wd\<lparr>calls := calls wd @ [OpenCall image_path]\<rparr>"
  let ?out = "\<lparr>im_size = (W, H), mode = m, format = None, pixel = (\<lambda>_. 0)\<rparr> :: 'a image"
  let ?w2 = "?w1\<lparr>calls := calls ?w1 @ [NewCall m (W, H)]\<rparr>"
  have op: "Image_open image_path wd = (Inr ?src, ?w1)"
    using src_file by (simp add: Image_open_def)
  have "0 \<le> (W div w) * (H div h)" using pos nn by (simp add: grid_counts)
  from arrangement_facts(2) [OF arr this]
  have vi: "valid_input (W, H) (w, h) ord = Inr True"
    using pos dv by (simp add: valid_input_char)
  from pos obtain ts where ts: "tiles (W, H) (w, h) = Inr ts"
    using tiles_Inr [of w h W H] by auto
  have new: "Image_new m (W, H) ?w1 = (Inr ?out, ?w2)"
    using nn by (simp add: Image_new_def Let_def)
  from grid_loop [OF ts pos nn dv arr, of ?src ?out]
  obtain out' where run: "paste_loop ?src ts ord ts ?out = Inr out'"
    and sz: "im_size out' = (W, H)" and md: "mode out' = m"
    and px: "\<forall>x y. 0 \<le> x \<and> x < W \<and> 0 \<le> y \<and> y < H \<longrightarrow>
                 pixel out' (x, y) = px (source_of (W div w) w h ord (x, y))"
    by auto
  have "rearrange_tiles image_path (w, h) ord out_path wd
          = save out' out_path (Some f) ?w2"
    by (simp add: rearrange_tiles_def op vi ts new run)
  also have "\<dots> = (Inr (), wd\<lparr>files := (files wd)(out_path \<mapsto> Picture f m (W, H) (pixel out')),
                        calls := calls wd @ [OpenCall image_path, NewCall m (W, H),
                                             SaveCall out_path (Some f)]\<rparr>)"
    using sv by (simp add: save_def Let_def sz md)
  finally show ?thesis using px by blast
qed

subsection \<open>The failure of the validation\<close>

text \<open>The errors the paste loop can raise: none of them carries the validation message.\<close>

lemma paste_loop_error:
  "paste_loop src ts ord boxes out = Inl e \<Longrightarrow>
   e = IndexError \<or> e = ValueError right_less_message
   \<or> e = ValueError lower_less_message
   \<or> e = ValueError ''images do not match''"
proof (induction ord arbitrary: boxes out)
  case Nil
  then show ?case by simp
next
  case (Cons i ord)
  note prems = Cons.prems and IH = Cons.IH
  show ?case
  proof (cases "py_index ts i")
    case (Inl e')
    with prems show ?thesis by (auto simp: py_index_def split: if_splits)
  next
    case ix: (Inr t)
    show ?thesis
    proof (cases "crop src t")
      case (Inl e')
      with prems ix show ?thesis
        by (cases t) (auto simp: crop_def split: if_splits)
    next
      case cr: (Inr im)
      show ?thesis
      proof (cases boxes)
        case Nil
        with prems ix cr show ?thesis by simp
      next
        case bs: (Cons b boxes')
        show ?thesis
        proof (cases "paste out im b")
          case (Inl e')
          with prems ix cr bs show ?thesis
            by (cases b) (auto simp: paste_def split: if_splits)
        next
          case (Inr out1)
          with prems ix cr bs have "paste_loop src ts ord boxes' out1 = Inl e" by simp
          then show ?thesis by (rule IH)
        qed
      qed
    qed
  qed
qed

lemma paste_loop_not_invalid:
  "paste_loop src ts ord boxes out \<noteq> Inl (ValueError invalid_message)"
proof
  assume "paste_loop src ts ord boxes out = Inl (ValueError invalid_message)"
  from paste_loop_error [OF this] show False
    by (simp add: invalid_message_def right_less_message_def lower_less_message_def)
qed

text \<open>
  C3: the rearranger fails with the error carrying exactly the message
  "The tile size or ordering are not valid for the given image" if and only if the image
  was opened and the validator returned False on its size, the tile size and the
  ordering. (The spec calls this error InvalidArrangementError; the source raises Python's
  \<open>ValueError\<close> with the message.) On that path nothing else happens: the world is the
  initial one with the open call recorded, so no canvas was created and no file written.
\<close>

theorem rearrange_tiles_invalid:
  "(fst (rearrange_tiles image_path tile_size ord out_path wd) = Inl (ValueError invalid_message)
      \<longleftrightarrow> (\<exists>src wd1. Image_open image_path wd = (Inr src, wd1)
                \<and> valid_input (im_size src) tile_size ord = Inr False))
   \<and> (fst (rearrange_tiles image_path tile_size ord out_path wd) = Inl (ValueError invalid_message)
      \<longrightarrow> snd (rearrange_tiles image_path tile_size ord out_path wd)
            = wd\<lparr>calls := calls wd @ [OpenCall image_path]\<rparr>)"
proof (cases "Image_open image_path wd")
  case (Pair res wd1)
  have wd1: "wd1 = wd\<lparr>calls := calls wd @ [OpenCall image_path]\<rparr>"
    using Pair by (auto simp: Image_open_def Let_def split: option.splits stored_file.splits)
  show ?thesis
  proof (cases res)
    case (Inl e)
    with Pair have "e = FileNotFoundError \<or> e = UnidentifiedImageError"
      by (auto simp: Image_open_def Let_def split: option.splits stored_file.splits)
    with Pair Inl show ?thesis by (auto simp: rearrange_tiles_def)
  next
    case (Inr src)
    show ?thesis
    proof (cases "valid_input (im_size src) tile_size ord")
      case (Inl e)
      then have "e = ZeroDivisionError"
        by (cases "im_size src"; cases tile_size) (auto simp: valid_input_def split: if_splits)
      with Pair Inr Inl show ?thesis by (simp add: rearrange_tiles_def)
    next
      case v: (Inr b)
      show ?thesis
      proof (cases b)
        case False
        with Pair Inr v wd1 show ?thesis by (simp add: rearrange_tiles_def)
      next
        case True
        have "fst (rearrange_tiles image_path tile_size ord out_path wd)
                \<noteq> Inl (ValueError invalid_message)"
          using Pair Inr v True
          by (auto simp: rearrange_tiles_def tiles_def Image_new_def save_def Let_def invalid_message_def
                         paste_loop_not_invalid [unfolded invalid_message_def]
                   split: sum.splits prod.splits if_splits option.splits)
        with Pair Inr v True show ?thesis by simp
      qed
    qed
  qed
qed

theorem rearrange_tiles_invalid_witness:
  "fst (rearrange_tiles ''in.png'' (2, 2) [0, 0] ''out.png'' demo_world)
     = Inl (ValueError ''The tile size or ordering are not valid for the given image'')
   \<and> snd (rearrange_tiles ''in.png'' (2, 2) [0, 0] ''out.png'' demo_world)
     = demo_world\<lparr>calls := [OpenCall ''in.png'']\<rparr>"
proof -
  have "Image_open ''in.png'' demo_world =
          (Inr \<lparr>im_size = (4, 2), mode = ''L'', format = Some ''PNG'', pixel = (\<lambda>(x, y). 10 * y + x)\<rparr>,
           demo_world\<lparr>calls := calls demo_world @ [OpenCall ''in.png'']\<rparr>)"
    by (simp add: Image_open_def demo_world_def)
  moreover have "valid_input (4, 2) (2, 2) [0, 0] = Inr False"
    by (simp add: valid_input_def)
  ultimately show ?thesis
    using rearrange_tiles_invalid [of "''in.png''" "(2, 2)" "[0, 0]" "''out.png''" demo_world]
    by (simp add: invalid_message_def demo_world_def)
qed

subsection \<open>Successful runs\<close>

text \<open>What a successful run has done: every step before the save has succeeded.\<close>

lemma rearrange_tiles_success:
  assumes "fst (rearrange_tiles image_path tile_size ord out_path wd) = Inr ()"
  shows "\<exists>f m s px ts out'.
           files wd image_path = Some (Picture f m s px)
           \<and> valid_input s tile_size ord = Inr True
           \<and> tiles s tile_size = Inr ts
           \<and> paste_loop \<lparr>im_size = s, mode = m, format = Some f, pixel = px\<rparr> ts ord ts
                \<lparr>im_size = s, mode = m, format = None, pixel = (\<lambda>_. 0)\<rparr> = Inr out'
           \<and> can_save wd out_path f m
           \<and> snd (rearrange_tiles image_path tile_size ord out_path wd)
               = wd\<lparr>files := (files wd)(out_path \<mapsto> Picture f (mode out') (im_size out') (pixel out')),
                    calls := calls wd @ [OpenCall image_path, NewCall m s, SaveCall out_path (Some f)]\<rparr>"
proof -
  from assms obtain f m s px where
    src_file: "files wd image_path = Some (Picture f m s px)"
    by (auto simp: rearrange_tiles_def Image_open_def Let_def
             split: option.splits stored_file.splits)
  let ?src = "\<lparr>im_size = s, mode = m, format = Some f, pixel = px\<rparr>"
  let ?w1 = "wd\<lparr>calls := calls wd @ [OpenCall image_path]\<rparr>"
  have op: "Image_open image_path wd = (Inr ?src, ?w1)"
    using src_file by (simp add: Image_open_def)
  from assms op have vi: "valid_input s tile_size ord = Inr True"
    by (auto simp: rearrange_tiles_def split: sum.splits bool.splits)
  from assms op vi obtain ts where ts: "tiles s tile_size = Inr ts"
    by (auto simp: rearrange_tiles_def split: sum.splits)
  let ?out = "\<lparr>im_size = s, mode = m, format = None, pixel = (\<lambda>_. 0)\<rparr> :: 'a image"
  let ?w2 = "?w1\<lparr>calls := calls ?w1 @ [NewCall m s]\<rparr>"
  from assms op vi ts have new: "Image_new m s ?w1 = (Inr ?out, ?w2)"
    by (auto simp: rearrange_tiles_def Image_new_def Let_def split: if_splits)
  from assms op vi ts new obtain out' where run: "paste_loop ?src ts ord ts ?out = Inr out'"
    by (auto simp: rearrange_tiles_def split: sum.splits)
  from assms op vi ts new run have sv: "fst (save out' out_path (Some f) ?w2) = Inr ()"
    by (simp add: rearrange_tiles_def)
  note fr = paste_loop_frame [OF run, of "(0, 0)"]
  from sv fr have cs: "can_save wd out_path f m"
    by (auto simp: save_def Let_def split: if_splits)
  have "rearrange_tiles image_path tile_size ord out_path wd = save out' out_path (Some f) ?w2"
    using op vi ts new run by (simp add: rearrange_tiles_def)
  with cs fr have "snd (rearrange_tiles image_path tile_size ord out_path wd)
      = wd\<lparr>files := (files wd)(out_path \<mapsto> Picture f (mode out') (im_size out') (pixel out')),
           calls := calls wd @ [OpenCall image_path, NewCall m s, SaveCall out_path (Some f)]\<rparr>"
    by (simp add: save_def Let_def)
  with src_file vi ts run cs show ?thesis by blast
qed

text \<open>
  C9: after a successful run the file at the output path is a picture in the format of
  the source file, with the colour mode and the size of the source image.
\<close>

theorem rearrange_tiles_output_format:
  assumes "fst (rearrange_tiles image_path tile_size ord out_path wd) = Inr ()"
  shows "\<exists>f m s px px'.
           files wd image_path = Some (Picture f m s px)
           \<and> files (snd (rearrange_tiles image_path tile_size ord out_path wd)) out_path
               = Some (Picture f m s px')"
proof -
  from rearrange_tiles_success [OF assms] obtain f m s px ts out' where
    src_file: "files wd image_path = Some (Picture f m s px)"
    and run: "paste_loop \<lparr>im_size = s, mode = m, format = Some f, pixel = px\<rparr> ts ord ts
                \<lparr>im_size = s, mode = m, format = None, pixel = (\<lambda>_. 0)\<rparr> = Inr out'"
    and wd': "snd (rearrange_tiles image_path tile_size ord out_path wd)
               = wd\<lparr>files := (files wd)(out_path \<mapsto> Picture f (mode out') (im_size out') (pixel out')),
                    calls := calls wd @ [OpenCall image_path, NewCall m s, SaveCall out_path (Some f)]\<rparr>"
    by blast
  from paste_loop_frame [OF run, of "(0, 0)"] have "im_size out' = s" "mode out' = m" by simp_all
  with wd' have "files (snd (rearrange_tiles image_path tile_size ord out_path wd)) out_path
                   = Some (Picture f m s (pixel out'))" by simp
  with src_file show ?thesis by blast
qed

text \<open>
  The example of two tiles: on the 4 x 2 picture with 2 x 2 tiles the ordering \<open>[1, 0]\<close>
  swaps the left and the right half.
\<close>

lemma demo_swap:
  "(case rearrange_tiles ''in.png'' (2, 2) [1, 0] ''out.png'' demo_world of
      (r, wd') \<Rightarrow> r = Inr () \<and>
        (case files wd' ''out.png'' of
           Some (Picture f m s px') \<Rightarrow>
             f = ''PNG'' \<and> m = ''L'' \<and> s = (4, 2)
             \<and> box_content px' (0, 0, 4, 2) = [[2, 3, 0, 1], [12, 13, 10, 11]]
         | _ \<Rightarrow> False))"
  by code_simp


lemma demo_run:
  "\<exists>px'. rearrange_tiles ''in.png'' (2, 2) [1, 0] ''out.png'' demo_world =
           (Inr (), demo_world\<lparr>files := (files demo_world)(''out.png'' \<mapsto> Picture ''PNG'' ''L'' (4, 2) px'),
                        calls := calls demo_world @ [OpenCall ''in.png'', NewCall ''L'' (4, 2),
                                             SaveCall ''out.png'' (Some ''PNG'')]\<rparr>)
         \<and> (\<forall>x y. 0 \<le> x \<and> x < 4 \<and> 0 \<le> y \<and> y < 2 \<longrightarrow>
               px' (x, y) = (case source_of (4 div 2) 2 2 [1, 0] (x, y) of (x, y) \<Rightarrow> 10 * y + x))"
  by (rule rearrange_tiles_run) (auto simp: demo_world_def is_arrangement_def)

theorem rearrange_tiles_output_format_witness:
  "fst (rearrange_tiles ''in.png'' (2, 2) [1, 0] ''out.png'' demo_world) = Inr ()
   \<and> (\<exists>f m s px px'.
           files demo_world ''in.png'' = Some (Picture f m s px)
           \<and> files (snd (rearrange_tiles ''in.png'' (2, 2) [1, 0] ''out.png'' demo_world)) ''out.png''
               = Some (Picture f m s px'))"
proof -
  from demo_run have h: "fst (rearrange_tiles ''in.png'' (2, 2) [1, 0] ''out.png'' demo_world) = Inr ()"
    by auto
  from h rearrange_tiles_output_format [OF h] show ?thesis by blast
qed

subsection \<open>The content of the output\<close>












subsection \<open>The identity ordering\<close>



text \<open>
  The tile sizes of the statements above are positive. A negative tile size that divides
  the image passes the validator with a fitting ordering, the grid is empty, and the run
  ends in an \<open>IndexError\<close>.
\<close>

lemma negative_tile_size_run:
  "valid_input (4, 2) (- 2, - 2) [0, 1] = Inr True
   \<and> fst (rearrange_tiles ''in.png'' (- 2, - 2) [0, 1] ''out.png'' demo_world) = Inl IndexError"
  by code_simp

subsection \<open>The round trip\<close>



lemma index_of_nth: "distinct xs \<Longrightarrow> i < length xs \<Longrightarrow> index_of xs (xs ! i) = i"
proof (induction xs arbitrary: i)
  case Nil
  then show ?case by simp
next
  case (Cons y ys)
  then show ?case by (cases i) auto
qed






end
